theory Spec2Isabelle
  imports Complex_Main "HOL-Library.AList"
begin

section \<open>Python strings\<close>

text \<open>
  The scripts work on Python \<open>str\<close> values. A string is modelled as a list of
  characters, each \<open>char\<close> standing for one code point in the range U+0000..U+00FF
  (so the acute accent of the headings, U+00B4, is the single character \<open>CHR 0xB4\<close>).
  The character classes below are Python's classes restricted to that range.
\<close>

definition is_space :: "char \<Rightarrow> bool" where
  \<comment> \<open>\<open>str.isspace\<close>, which is also what \<open>str.strip()\<close> removes and what \<open>\s\<close> matches\<close>
  "is_space c \<longleftrightarrow> c \<in> set [CHR 0x09, CHR 0x0A, CHR 0x0B, CHR 0x0C, CHR 0x0D,
                               CHR 0x1C, CHR 0x1D, CHR 0x1E, CHR 0x1F, CHR 0x20,
                               CHR 0x85, CHR 0xA0]"

definition is_digit :: "char \<Rightarrow> bool" where
  \<comment> \<open>\<open>\d\<close>: the decimal digits\<close>
  "is_digit c \<longleftrightarrow> c \<in> set ''0123456789''"


definition upper_chars :: string where
  "upper_chars = ''ABCDEFGHIJKLMNOPQRSTUVWXYZ'' @
     [CHR 0xC0, CHR 0xC1, CHR 0xC2, CHR 0xC3, CHR 0xC4, CHR 0xC5, CHR 0xC6, CHR 0xC7,
      CHR 0xC8, CHR 0xC9, CHR 0xCA, CHR 0xCB, CHR 0xCC, CHR 0xCD, CHR 0xCE, CHR 0xCF,
      CHR 0xD0, CHR 0xD1, CHR 0xD2, CHR 0xD3, CHR 0xD4, CHR 0xD5, CHR 0xD6,
      CHR 0xD8, CHR 0xD9, CHR 0xDA, CHR 0xDB, CHR 0xDC, CHR 0xDD, CHR 0xDE]"

definition lower_chars :: string where
  "lower_chars = ''abcdefghijklmnopqrstuvwxyz'' @
     [CHR 0xE0, CHR 0xE1, CHR 0xE2, CHR 0xE3, CHR 0xE4, CHR 0xE5, CHR 0xE6, CHR 0xE7,
      CHR 0xE8, CHR 0xE9, CHR 0xEA, CHR 0xEB, CHR 0xEC, CHR 0xED, CHR 0xEE, CHR 0xEF,
      CHR 0xF0, CHR 0xF1, CHR 0xF2, CHR 0xF3, CHR 0xF4, CHR 0xF5, CHR 0xF6,
      CHR 0xF8, CHR 0xF9, CHR 0xFA, CHR 0xFB, CHR 0xFC, CHR 0xFD, CHR 0xFE]"

definition lower_char :: "char \<Rightarrow> char" where
  "lower_char c = (case map_of (zip upper_chars lower_chars) c of Some l \<Rightarrow> l | None \<Rightarrow> c)"

definition lower :: "string \<Rightarrow> string" where
  \<comment> \<open>\<open>str.lower()\<close>\<close>
  "lower s = map lower_char s"

definition lstrip :: "string \<Rightarrow> string" where
  "lstrip s = dropWhile is_space s"

definition rstrip :: "string \<Rightarrow> string" where
  "rstrip s = rev (dropWhile is_space (rev s))"

definition strip :: "string \<Rightarrow> string" where
  \<comment> \<open>\<open>str.strip()\<close>\<close>
  "strip s = rstrip (lstrip s)"

definition startswith :: "string \<Rightarrow> string \<Rightarrow> bool" where
  \<comment> \<open>\<open>s.startswith(p)\<close>\<close>
  "startswith s p \<longleftrightarrow> take (length p) s = p"

definition endswith :: "string \<Rightarrow> string \<Rightarrow> bool" where
  \<comment> \<open>\<open>s.endswith(p)\<close>\<close>
  "endswith s p \<longleftrightarrow> length p \<le> length s \<and> drop (length s - length p) s = p"

subsection \<open>Integers from and to text\<close>

datatype py_error = ValueError | KeyError | TypeError | IndexError

definition digit_val :: "char \<Rightarrow> nat" where
  "digit_val c = of_char c - 48"

definition nat_of_digits :: "string \<Rightarrow> nat" where
  "nat_of_digits ds = foldl (\<lambda>acc c. 10 * acc + digit_val c) 0 ds"

fun digit_groups :: "string \<Rightarrow> bool" where
  \<comment> \<open>digits, with single underscores allowed between two digits\<close>
  "digit_groups [] = False"
| "digit_groups [c] = is_digit c"
| "digit_groups (c # d # cs) =
     (is_digit c \<and> (if d = CHR ''_'' then digit_groups cs else digit_groups (d # cs)))"

definition is_int_space :: "char \<Rightarrow> bool" where
  \<comment> \<open>the whitespace that \<open>int\<close> accepts around a number: the ASCII whitespace and
      the two other whitespace characters of the range (the separators U+001C..U+001F
      are not among it)\<close>
  "is_int_space c \<longleftrightarrow> c \<in> set [CHR 0x09, CHR 0x0A, CHR 0x0B, CHR 0x0C, CHR 0x0D, CHR 0x20,
                                   CHR 0x85, CHR 0xA0]"

definition int_strip :: "string \<Rightarrow> string" where
  "int_strip s = rev (dropWhile is_int_space (rev (dropWhile is_int_space s)))"

definition py_int :: "string \<Rightarrow> int option" where
  \<comment> \<open>\<open>int(s)\<close> on a string; \<open>None\<close> stands for the \<open>ValueError\<close>. Surrounding
      whitespace and one sign are accepted; more than 4300 digits are refused.\<close>
  "py_int s =
     (let t = int_strip s;
          neg = (t \<noteq> [] \<and> hd t = CHR ''-'');
          u = (if t \<noteq> [] \<and> (hd t = CHR ''-'' \<or> hd t = CHR ''+'') then tl t else t);
          ds = filter (\<lambda>c. c \<noteq> CHR ''_'') u
      in if digit_groups u \<and> length ds \<le> 4300
         then Some (if neg then - int (nat_of_digits ds) else int (nat_of_digits ds))
         else None)"





section \<open>The match scorer\<close>

text \<open>
  Scores are Python floats; they are modelled as real numbers. The similarity ratio
  \<open>fuzz.ratio\<close> belongs to an external library and is a parameter \<open>ratio\<close> of every
  function that uses it, and so is the lookup \<open>search_tmdb\<close>, which answers a query
  and an optional year with a list of candidates (it returns the empty list on any
  transport failure).
\<close>

type_synonym ratio_fn = "string \<Rightarrow> string \<Rightarrow> real"

record candidate =
  c_id :: "int option"  \<comment> \<open>key \<open>id\<close> of a search result; \<open>None\<close> when the key is absent\<close>
  c_title :: "string option"  \<comment> \<open>key \<open>title\<close>\<close>
  c_original_title :: "string option"  \<comment> \<open>key \<open>original_title\<close>\<close>
  c_release_date :: "string option"  \<comment> \<open>key \<open>release_date\<close>\<close>

type_synonym lookup = "string \<Rightarrow> int option \<Rightarrow> candidate list"

definition split_first :: "char \<Rightarrow> string \<Rightarrow> string" where
  \<comment> \<open>\<open>s.split(sep)[0]\<close>\<close>
  "split_first sep s = takeWhile (\<lambda>c. c \<noteq> sep) s"

definition get_default :: "'a option \<Rightarrow> 'a \<Rightarrow> 'a" where
  \<comment> \<open>\<open>d.get(key, default)\<close> on an optional field\<close>
  "get_default v d = (case v of None \<Rightarrow> d | Some x \<Rightarrow> x)"

definition calculate_match_score ::
  "ratio_fn \<Rightarrow> string \<Rightarrow> string \<Rightarrow> string \<Rightarrow> int option \<Rightarrow> string option \<Rightarrow> py_error + real" where
  \<comment> \<open>\<open>calculate_match_score\<close> of match_movies.py, enrich_org_tmdb.py and
      match_movies_suggested.py\<close>
  "calculate_match_score ratio original tmdb_title tmdb_original_title year_hint tmdb_year =
     (let score_title = ratio (lower original) (lower tmdb_title);
          score_original = ratio (lower original) (lower tmdb_original_title);
          base_score = max score_title score_original
      in case (year_hint, tmdb_year) of
           (Some h, Some d) \<Rightarrow>
             if h \<noteq> 0 \<and> d \<noteq> [] then
               (case py_int (split_first CHR ''-'' d) of
                  None \<Rightarrow> Inl ValueError
                | Some tmdb_year_int \<Rightarrow>
                    if tmdb_year_int = h then Inr (min 100 (base_score + 10))
                    else if \<bar>tmdb_year_int - h\<bar> \<le> 1 then Inr (min 100 (base_score + 5))
                    else Inr base_score)
             else Inr base_score
         | _ \<Rightarrow> Inr base_score)"

definition calculate_confidence ::
  "ratio_fn \<Rightarrow> string \<Rightarrow> string \<Rightarrow> string \<Rightarrow> int option \<Rightarrow> string option \<Rightarrow> real" where
  \<comment> \<open>\<open>calculate_confidence\<close> of update_tmdb_from_suggested.py; a failed conversion
      of the year is caught there and leaves the bonus at 0\<close>
  "calculate_confidence ratio original suggested tmdb_title year_hint tmdb_year =
     (let title_ratio = ratio (lower suggested) (lower tmdb_title);
          year_bonus =
            (case (year_hint, tmdb_year) of
               (Some h, Some d) \<Rightarrow>
                 if h \<noteq> 0 \<and> d \<noteq> [] then
                   (case py_int (take 4 d) of
                      None \<Rightarrow> 0
                    | Some tmdb_year_int \<Rightarrow>
                        if tmdb_year_int = h then 20
                        else if \<bar>tmdb_year_int - h\<bar> \<le> 1 then 10
                        else 0)
                 else 0
             | _ \<Rightarrow> 0)
      in min 100 (title_ratio + year_bonus))"

datatype match_status = HIGH_CONFIDENCE | MEDIUM_CONFIDENCE | LOW_CONFIDENCE | NO_RESULTS

record match_info =
  tmdb_id :: "int option"
  confidence :: real
  tmdb_title :: "string option"
  tmdb_original_title :: "string option"
  needs_review :: bool
  match_status :: match_status

definition HIGH_CONFIDENCE_THRESHOLD :: real where
  "HIGH_CONFIDENCE_THRESHOLD = 85"

definition MEDIUM_CONFIDENCE_THRESHOLD :: real where
  "MEDIUM_CONFIDENCE_THRESHOLD = 70"

definition round_half_even :: "real \<Rightarrow> int" where
  "round_half_even x =
     (let f = \<lfloor>x\<rfloor>
      in if x - of_int f < 1 / 2 then f
         else if 1 / 2 < x - of_int f then f + 1
         else if even f then f else f + 1)"

definition round2 :: "real \<Rightarrow> real" where
  \<comment> \<open>\<open>round(x, 2)\<close>\<close>
  "round2 x = of_int (round_half_even (x * 100)) / 100"

definition search_results :: "lookup \<Rightarrow> string \<Rightarrow> int option \<Rightarrow> candidate list" where
  \<comment> \<open>the search with the year and, when it finds nothing and there is a year, the
      search without it\<close>
  "search_results search cleaned_title year_hint =
     (let results = search cleaned_title year_hint
      in if results = [] \<and> year_hint \<noteq> None \<and> year_hint \<noteq> Some 0
         then search cleaned_title None else results)"


fun score_results ::
  "ratio_fn \<Rightarrow> string \<Rightarrow> int option \<Rightarrow> candidate list \<Rightarrow> py_error + (real \<times> candidate) list" where
  "score_results ratio cleaned_title year_hint [] = Inr []"
| "score_results ratio cleaned_title year_hint (result # rest) =
     (case calculate_match_score ratio cleaned_title
             (get_default (c_title result) '''') (get_default (c_original_title result) '''')
             year_hint (c_release_date result) of
        Inl e \<Rightarrow> Inl e
      | Inr score \<Rightarrow>
          (case score_results ratio cleaned_title year_hint rest of
             Inl e \<Rightarrow> Inl e
           | Inr scored \<Rightarrow> Inr ((score, result) # scored)))"

definition sort_by_score :: "(real \<times> candidate) list \<Rightarrow> (real \<times> candidate) list" where
  \<comment> \<open>\<open>scored_results.sort(reverse=True, key=lambda x: x[0])\<close>: a stable sort,
      descending on the score\<close>
  "sort_by_score scored = sort_key (\<lambda>x. - fst x) scored"

definition status_of :: "real \<Rightarrow> match_status" where
  "status_of best_score =
     (if best_score \<ge> HIGH_CONFIDENCE_THRESHOLD then HIGH_CONFIDENCE
      else if best_score \<ge> MEDIUM_CONFIDENCE_THRESHOLD then MEDIUM_CONFIDENCE
      else LOW_CONFIDENCE)"

definition match_of :: "real \<Rightarrow> candidate \<Rightarrow> match_info" where
  \<comment> \<open>the dictionary that \<open>find_best_match\<close> returns for the best result\<close>
  "match_of best_score best_result =
     \<lparr>tmdb_id = c_id best_result,
      confidence = round2 best_score,
      tmdb_title = c_title best_result,
      tmdb_original_title = c_original_title best_result,
      needs_review = (best_score < HIGH_CONFIDENCE_THRESHOLD),
      match_status = status_of best_score\<rparr>"

definition no_results :: match_info where
  "no_results =
     \<lparr>tmdb_id = None, confidence = 0, tmdb_title = None, tmdb_original_title = None,
      needs_review = True, match_status = NO_RESULTS\<rparr>"

definition find_best_match ::
  "ratio_fn \<Rightarrow> lookup \<Rightarrow> string \<Rightarrow> int option \<Rightarrow> py_error + match_info" where
  \<comment> \<open>\<open>find_best_match\<close> of enrich_org_tmdb.py; the one of match_movies.py differs only
      in reading its two arguments from a dictionary and in two more fields of the
      result (\<open>year\<close>, \<open>genres\<close>)\<close>
  "find_best_match ratio search cleaned_title year_hint =
     (let results = search_results search cleaned_title year_hint
      in if results = [] then Inr no_results
         else
           (case score_results ratio cleaned_title year_hint (take 10 results) of
              Inl e \<Rightarrow> Inl e
            | Inr scored_results \<Rightarrow>
                (case sort_by_score scored_results of
                   [] \<Rightarrow> Inl IndexError
                 | (best_score, best_result) # _ \<Rightarrow> Inr (match_of best_score best_result))))"

text \<open>
  The selection loop of \<open>update_org_entries\<close> (update_tmdb_from_suggested.py): the
  first five results, a strict comparison, and a best confidence that starts at 0.
\<close>

definition best_of_top5 ::
  "ratio_fn \<Rightarrow> string \<Rightarrow> string \<Rightarrow> int option \<Rightarrow> candidate list \<Rightarrow> candidate option \<times> real" where
  "best_of_top5 ratio heading suggested_search year_hint results =
     foldl (\<lambda>(best_match, best_confidence) result.
              let confidence = calculate_confidence ratio heading suggested_search
                                 (get_default (c_title result) '''') year_hint
                                 (Some (get_default (c_release_date result) ''''))
              in if confidence > best_confidence then (Some result, confidence)
                 else (best_match, best_confidence))
           (None, 0) (take 5 results)"

text \<open>
  Modelled from the spec: the library function \<open>fuzz.ratio\<close>, which is not part of
  the repository. The spec calls it a normalized edit-distance-based ratio (0--100);
  the library defines it as the normalized insertion/deletion similarity,
  \<open>100 * 2 * lcs / (len1 + len2)\<close>, and 100 for two empty strings. It is used below
  only to evaluate the scorer on concrete titles.
\<close>

fun lcs :: "'a list \<Rightarrow> 'a list \<Rightarrow> nat" where
  "lcs [] ys = 0"
| "lcs (x # xs) [] = 0"
| "lcs (x # xs) (y # ys) =
     (if x = y then Suc (lcs xs ys) else max (lcs xs (y # ys)) (lcs (x # xs) ys))"

definition fuzz_ratio :: ratio_fn where
  "fuzz_ratio s1 s2 =
     (if s1 = [] \<and> s2 = [] then 100
      else 100 * real (2 * lcs s1 s2) / real (length s1 + length s2))"


subsection \<open>Auxiliary notions for the scorer\<close>

definition base_score :: "ratio_fn \<Rightarrow> string \<Rightarrow> string \<Rightarrow> string \<Rightarrow> real" where
  \<comment> \<open>the value of \<open>base_score\<close> before the year is looked at\<close>
  "base_score ratio original title orig =
     max (ratio (lower original) (lower title)) (ratio (lower original) (lower orig))"

definition year_bonus :: "int option \<Rightarrow> string option \<Rightarrow> py_error + real" where
  \<comment> \<open>what \<open>calculate_match_score\<close> adds for the year, or the error of the conversion\<close>
  "year_bonus year_hint tmdb_year =
     (case (year_hint, tmdb_year) of
        (Some h, Some d) \<Rightarrow>
          if h \<noteq> 0 \<and> d \<noteq> [] then
            (case py_int (split_first CHR ''-'' d) of
               None \<Rightarrow> Inl ValueError
             | Some y \<Rightarrow> if y = h then Inr 10 else if \<bar>y - h\<bar> \<le> 1 then Inr 5 else Inr 0)
          else Inr 0
      | _ \<Rightarrow> Inr 0)"

definition release_year :: "string option \<Rightarrow> int option" where
  \<comment> \<open>a candidate's release year: the integer before the first \<open>-\<close> of its release
      date; none when the date is absent, empty or does not start with an integer\<close>
  "release_year tmdb_year =
     (case tmdb_year of
        None \<Rightarrow> None
      | Some d \<Rightarrow> if d = [] then None else py_int (split_first CHR ''-'' d))"

text \<open>
  The score as the specification words it: the larger of the two title ratios, plus 10
  when the year hint equals the release year and 5 when they differ by exactly one,
  capped at 100.
\<close>

definition spec_year_bonus :: "int option \<Rightarrow> int option \<Rightarrow> real" where
  "spec_year_bonus year_hint year =
     (case (year_hint, year) of
        (Some h, Some y) \<Rightarrow> if h = y then 10 else if \<bar>h - y\<bar> = 1 then 5 else 0
      | _ \<Rightarrow> 0)"

definition spec_score ::
  "ratio_fn \<Rightarrow> string \<Rightarrow> string \<Rightarrow> string \<Rightarrow> int option \<Rightarrow> int option \<Rightarrow> real" where
  "spec_score ratio query title orig year_hint year =
     min 100 (max (ratio (lower query) (lower title)) (ratio (lower query) (lower orig))
              + spec_year_bonus year_hint year)"

section \<open>Stub lookups for the examples\<close>

definition alien :: candidate where
  "alien = \<lparr>c_id = Some 1, c_title = Some ''Alien'', c_original_title = Some ''Alien'',
            c_release_date = Some ''1979-05-25''\<rparr>"

definition heat :: candidate where
  \<comment> \<open>the candidate of the end-to-end example: titled Heat, released 1995-12-15, id 123\<close>
  "heat = \<lparr>c_id = Some 123, c_title = Some ''Heat'', c_original_title = None,
           c_release_date = Some ''1995-12-15''\<rparr>"

definition unrelated :: candidate where
  "unrelated = \<lparr>c_id = Some 5, c_title = Some ''XYZ'', c_original_title = None,
                c_release_date = None\<rparr>"

definition heat2 :: candidate where
  \<comment> \<open>another film of the same title and year\<close>
  "heat2 = \<lparr>c_id = Some 456, c_title = Some ''Heat'', c_original_title = Some ''Heat'',
            c_release_date = Some ''1995-01-01''\<rparr>"

definition undated :: candidate where
  \<comment> \<open>a candidate whose release date does not start with a year\<close>
  "undated = \<lparr>c_id = Some 9, c_title = Some ''Heat'', c_original_title = Some ''Heat'',
              c_release_date = Some ''unknown''\<rparr>"

definition tie_lookup :: lookup where
  "tie_lookup query year = [alien, heat, heat2]"

definition undated_lookup :: lookup where
  "undated_lookup query year = [undated]"


definition eleven_results :: lookup where
  "eleven_results query year = replicate 10 alien @ [heat]"



section \<open>The title normalizer\<close>

text \<open>
  \<open>parse_org_title\<close> of enrich_org_tmdb.py; \<open>parse_org_entry\<close> of match_movies.py
  computes the same three values and returns them in a dictionary, with the line
  number. Each regular expression is written out as the function it computes.
\<close>

definition match_rest :: "string \<Rightarrow> string option" where
  \<comment> \<open>\<open>(.+)$\<close>: one or more characters other than a newline, up to the end of the
      string or to a newline that ends it\<close>
  "match_rest g =
     (let r = takeWhile (\<lambda>c. c \<noteq> CHR 0x0A) g;
          after = dropWhile (\<lambda>c. c \<noteq> CHR 0x0A) g
      in if r \<noteq> [] \<and> (after = [] \<or> after = [CHR 0x0A]) then Some r else None)"

fun heading_ws :: "nat \<Rightarrow> string \<Rightarrow> string option" where
  \<comment> \<open>\<open>\s+(.+)$\<close>: the longest run of whitespace first, then shorter ones\<close>
  "heading_ws 0 t = None"
| "heading_ws (Suc k) t =
     (case match_rest (drop (Suc k) t) of Some g \<Rightarrow> Some g | None \<Rightarrow> heading_ws k t)"

definition heading_match :: "string \<Rightarrow> string option" where
  \<comment> \<open>group 1 of \<open>re.match(r'^\*\s+(.+)$', s)\<close>\<close>
  "heading_match s =
     (case s of
        [] \<Rightarrow> None
      | c # t \<Rightarrow> if c = CHR ''*'' then heading_ws (length (takeWhile is_space t)) t else None)"

definition four_digits :: "string \<Rightarrow> bool" where
  \<comment> \<open>\<open>\d{4}\<close> at the start of the string\<close>
  "four_digits s \<longleftrightarrow> 4 \<le> length s \<and> list_all is_digit (take 4 s)"

definition is_quote :: "char \<Rightarrow> bool" where
  \<comment> \<open>the class of the acute accent and the apostrophe\<close>
  "is_quote c \<longleftrightarrow> c = CHR 0xB4 \<or> c = CHR 0x27"

fun year_search :: "string \<Rightarrow> string option" where
  \<comment> \<open>group 1 of the leftmost match of the year pattern, an optional quote and four
      digits\<close>
  "year_search [] = None"
| "year_search (c # cs) =
     (if is_quote c \<and> four_digits cs then Some (take 4 cs)
      else if four_digits (c # cs) then Some (take 4 (c # cs))
      else year_search cs)"

function remove_parens :: "string \<Rightarrow> string" where
  \<comment> \<open>\<open>re.sub(r'\([^)]*\)', '', s)\<close>\<close>
  "remove_parens [] = []"
| "remove_parens (c # cs) =
     (if c = CHR ''('' \<and> CHR '')'' \<in> set cs
      then remove_parens (tl (dropWhile (\<lambda>x. x \<noteq> CHR '')'') cs))
      else c # remove_parens cs)"
  by pat_completeness auto
termination
proof (relation "measure length")
  show "wf (measure length)" by simp
next
  fix c :: char and cs :: string
  have "length (tl (dropWhile (\<lambda>x. x \<noteq> CHR '')'') cs)) \<le> length cs"
    using length_dropWhile_le [of "\<lambda>x. x \<noteq> CHR '')''" cs] by simp
  then show "(tl (dropWhile (\<lambda>x. x \<noteq> CHR '')'') cs), c # cs) \<in> measure length"
    by simp
next
  fix c :: char and cs :: string
  show "(cs, c # cs) \<in> measure length" by simp
qed

fun remove_trailing :: "string \<Rightarrow> string" where
  \<comment> \<open>\<open>re.sub(r'[_/]\s*$', '', s)\<close>: the pattern matches at an underscore or slash
      that only whitespace follows, and the match runs to the end\<close>
  "remove_trailing [] = []"
| "remove_trailing (c # cs) =
     (if (c = CHR ''_'' \<or> c = CHR ''/'') \<and> list_all is_space cs then []
      else c # remove_trailing cs)"

function collapse_spaces :: "string \<Rightarrow> string" where
  \<comment> \<open>\<open>re.sub(r'\s+', ' ', s)\<close>\<close>
  "collapse_spaces [] = []"
| "collapse_spaces (c # cs) =
     (if is_space c then CHR '' '' # collapse_spaces (dropWhile is_space cs)
      else c # collapse_spaces cs)"
  by pat_completeness auto
termination
proof (relation "measure length")
  show "wf (measure length)" by simp
next
  fix c :: char and cs :: string
  have "length (dropWhile is_space cs) \<le> length cs"
    by (rule length_dropWhile_le)
  then show "(dropWhile is_space cs, c # cs) \<in> measure length" by simp
next
  fix c :: char and cs :: string
  show "(cs, c # cs) \<in> measure length" by simp
qed

definition year_of_title :: "string \<Rightarrow> int option" where
  \<comment> \<open>the year hint: the four digits found, when their value is from 1920 to 2025\<close>
  "year_of_title full_title =
     (case year_search full_title of
        None \<Rightarrow> None
      | Some ds \<Rightarrow>
          (let potential_year = int (nat_of_digits ds)
           in if 1920 \<le> potential_year \<and> potential_year \<le> 2025
              then Some potential_year else None))"

definition clean_title :: "string \<Rightarrow> string" where
  "clean_title full_title =
     (let cleaned = strip (remove_parens full_title);
          cleaned = filter (\<lambda>c. \<not> is_quote c) cleaned;
          cleaned = remove_trailing cleaned
      in strip (collapse_spaces cleaned))"

definition parse_org_title :: "string \<Rightarrow> (string \<times> string \<times> int option) option" where
  "parse_org_title line =
     (case heading_match (strip line) of
        None \<Rightarrow> None
      | Some g \<Rightarrow>
          (let full_title = strip g
           in Some (full_title, clean_title full_title, year_of_title full_title)))"

text \<open>
  The first run of four consecutive digits of a text, said without the pattern: the
  first of its windows of four characters that holds digits only.
\<close>

definition windows4 :: "string \<Rightarrow> string list" where
  "windows4 s = map (\<lambda>i. take 4 (drop i s)) [0..<length s - 3]"

definition first_four_digit_run :: "string \<Rightarrow> string option" where
  "first_four_digit_run s = find (list_all is_digit) (windows4 s)"

section \<open>Removing duplicate properties\<close>

text \<open>
  \<open>deduplicate_properties\<close> of deduplicate_properties.py, as a function from the
  lines read to the lines written; the statistics it collects do not influence the
  lines and are left out. A file is the list of its lines, each with its line end.
\<close>

record dedup_state =
  result_lines :: "string list"
  in_properties :: bool
  current_properties :: "string \<rightharpoonup> nat \<times> string"

definition is_property_line :: "string \<Rightarrow> bool" where
  \<comment> \<open>the test of a line inside a block: after stripping it starts with a colon,
      does not end with one, and has a colon after the first\<close>
  "is_property_line line \<longleftrightarrow>
     startswith (strip line) '':'' \<and> \<not> endswith (strip line) '':'' \<and>
     CHR '':'' \<in> set (drop 1 (strip line))"

definition property_name :: "string \<Rightarrow> string" where
  \<comment> \<open>\<open>property_line.split(':', 2)[1]\<close>: the text between the first two colons\<close>
  "property_name line = takeWhile (\<lambda>c. c \<noteq> CHR '':'') (drop 1 (strip line))"

definition remove_last :: "'a \<Rightarrow> 'a list \<Rightarrow> 'a list" where
  \<comment> \<open>the backwards search that deletes the last element equal to \<open>x\<close>\<close>
  "remove_last x xs = rev (remove1 x (rev xs))"

definition dedup_step :: "string list \<Rightarrow> dedup_state \<Rightarrow> nat \<Rightarrow> dedup_state" where
  \<comment> \<open>one turn of the loop, at index \<open>i\<close>\<close>
  "dedup_step lines st i =
     (let line = lines ! i in
      if strip line = '':PROPERTIES:'' then
        st\<lparr>in_properties := True, current_properties := Map.empty,
           result_lines := result_lines st @ [line]\<rparr>
      else if strip line = '':END:'' then
        st\<lparr>in_properties := False, current_properties := Map.empty,
           result_lines := result_lines st @ [line]\<rparr>
      else if in_properties st \<and> startswith (strip line) '':'' \<and> \<not> endswith (strip line) '':'' then
        (if CHR '':'' \<in> set (drop 1 (strip line)) then
           (let prop_name = property_name line in
            case current_properties st prop_name of
              Some (first_occurrence_idx, first_line_content) \<Rightarrow>
                st\<lparr>result_lines :=
                     remove_last (lines ! first_occurrence_idx) (result_lines st) @ [line],
                   current_properties := (current_properties st)(prop_name \<mapsto> (i, line))\<rparr>
            | None \<Rightarrow>
                st\<lparr>current_properties := (current_properties st)(prop_name \<mapsto> (i, line)),
                   result_lines := result_lines st @ [line]\<rparr>)
         else st\<lparr>result_lines := result_lines st @ [line]\<rparr>)
      else st\<lparr>result_lines := result_lines st @ [line]\<rparr>)"

definition dedup_init :: dedup_state where
  "dedup_init = \<lparr>result_lines = [], in_properties = False, current_properties = Map.empty\<rparr>"

definition deduplicate_properties :: "string list \<Rightarrow> string list" where
  "deduplicate_properties lines =
     result_lines (foldl (dedup_step lines) dedup_init [0..<length lines])"

text \<open>
  What the rewriting of a block comes to: of the lines between the two markers, a
  property line is dropped when a later property line of the block has its name, and
  every other line stays where it is.
\<close>

fun keep_last_occurrences :: "string list \<Rightarrow> string list" where
  "keep_last_occurrences [] = []"
| "keep_last_occurrences (l # ls) =
     (if is_property_line l \<and>
         list_ex (\<lambda>l'. is_property_line l' \<and> property_name l' = property_name l) ls
      then keep_last_occurrences ls
      else l # keep_last_occurrences ls)"

definition no_marker :: "string \<Rightarrow> bool" where
  "no_marker line \<longleftrightarrow> strip line \<noteq> '':PROPERTIES:'' \<and> strip line \<noteq> '':END:''"

subsection \<open>The loop as a fold over the lines\<close>

text \<open>
  For the proofs the loop over the indices is related to a fold over the lines
  themselves, whose table holds for each property name the line of its last occurrence.
\<close>

type_synonym dedup_view = "string list \<times> bool \<times> (string \<rightharpoonup> string)"

definition view_step :: "dedup_view \<Rightarrow> string \<Rightarrow> dedup_view" where
  "view_step st line =
     (case st of (res, ip, d) \<Rightarrow>
        if strip line = '':PROPERTIES:'' then (res @ [line], True, Map.empty)
        else if strip line = '':END:'' then (res @ [line], False, Map.empty)
        else if ip \<and> is_property_line line then
          (case d (property_name line) of
             Some c \<Rightarrow> (remove_last c res @ [line], ip, d(property_name line \<mapsto> line))
           | None \<Rightarrow> (res @ [line], ip, d(property_name line \<mapsto> line)))
        else (res @ [line], ip, d))"

definition view_of :: "dedup_state \<Rightarrow> dedup_view" where
  "view_of st = (result_lines st, in_properties st, map_option snd \<circ> current_properties st)"

definition indexed :: "string list \<Rightarrow> dedup_state \<Rightarrow> bool" where
  "indexed lines st \<longleftrightarrow>
     (\<forall>n idx c. current_properties st n = Some (idx, c) \<longrightarrow> idx < length lines \<and> lines ! idx = c)"

definition last_occurrence :: "string list \<Rightarrow> string \<Rightarrow> string option" where
  "last_occurrence body n =
     (let ls = filter (\<lambda>l. is_property_line l \<and> property_name l = n) body
      in if ls = [] then None else Some (last ls))"

definition anchored :: "dedup_view \<Rightarrow> bool" where
  "anchored st \<longleftrightarrow>
     (case st of (res, ip, d) \<Rightarrow> \<forall>n c. d n = Some c \<longrightarrow> c \<in> set res \<and> property_name c = n)"


section \<open>Writing identifiers into the document\<close>















section \<open>Parsing a document into entries and rebuilding property blocks\<close>

text \<open>
  \<open>parse_org_file\<close> of update_tmdb_from_suggested.py and of
  inject_knowledge_properties.py (the two differ in the names of two fields), and the
  two functions that rebuild property blocks from the parsed dictionaries. A Python
  dictionary keeps its keys in the order of their first insertion; it is an association
  list, updated in place.
\<close>

record org_entry =
  line_number :: nat
  heading :: string
  properties_start :: "nat option"
  properties_end :: "nat option"
  properties :: "(string \<times> string) list"
  end_line :: "nat option"








subsection \<open>Identifiers from the suggested search\<close>









subsection \<open>Properties from the knowledge batches\<close>







subsection \<open>Blocks in the form the scripts write\<close>









section \<open>Properties\<close>

lemmas str_defs = lower_def lower_char_def upper_chars_def lower_chars_def strip_def
  lstrip_def rstrip_def is_space_def is_digit_def is_int_space_def int_strip_def py_int_def nat_of_digits_def digit_val_def
  split_first_def startswith_def endswith_def


subsection \<open>The similarity ratio of the library model\<close>

lemma lcs_le_left: "lcs xs ys \<le> length xs"
  by (induction xs ys rule: lcs.induct) auto

lemma lcs_le_right: "lcs xs ys \<le> length ys"
  by (induction xs ys rule: lcs.induct) auto

lemma fuzz_ratio_range: "0 \<le> fuzz_ratio a b \<and> fuzz_ratio a b \<le> 100"
proof (cases "a = [] \<and> b = []")
  case True
  then show ?thesis by (simp add: fuzz_ratio_def)
next
  case False
  then have "0 < length a + length b" by (cases a; cases b; simp)
  then have pos: "0 < real (length a + length b)" by (simp only: of_nat_0_less_iff)
  have "2 * lcs a b \<le> length a + length b"
    using lcs_le_left [of a b] lcs_le_right [of a b] by linarith
  then have "real (2 * lcs a b) \<le> real (length a + length b)"
    by (rule of_nat_mono)
  then have "100 * real (2 * lcs a b) / real (length a + length b) \<le> 100"
    using pos by (simp add: divide_le_eq)
  moreover have "0 \<le> 100 * real (2 * lcs a b) / real (length a + length b)"
    by simp
  ultimately show ?thesis using False by (simp add: fuzz_ratio_def)
qed

subsection \<open>The score of one candidate\<close>

lemma calculate_match_score_bonus:
  "calculate_match_score ratio q t ot year_hint tmdb_year =
     (case year_bonus year_hint tmdb_year of
        Inl e \<Rightarrow> Inl e
      | Inr b \<Rightarrow> Inr (if b = 0 then base_score ratio q t ot
                      else min 100 (base_score ratio q t ot + b)))"
  by (simp add: calculate_match_score_def year_bonus_def base_score_def Let_def
        split: option.splits)

lemma year_bonus_values:
  "year_bonus year_hint tmdb_year = Inr b \<Longrightarrow> b = 0 \<or> b = 5 \<or> b = 10"
  by (auto simp: year_bonus_def split: option.splits if_splits)

text \<open>
  C9. With the year hint and the release date fixed (so that the bonus is the same), a
  larger title similarity never gives a smaller score; the score is
  \<open>min 100 (base + bonus)\<close> and so never above 100. The ratio is taken to stay
  within its range, at most 100.
\<close>

theorem calculate_match_score_monotone:
  assumes "\<forall>a b. ratio a b \<le> 100"
    and "calculate_match_score ratio q1 t1 o1 year_hint tmdb_year = Inr s1"
    and "calculate_match_score ratio q2 t2 o2 year_hint tmdb_year = Inr s2"
    and "base_score ratio q1 t1 o1 \<le> base_score ratio q2 t2 o2"
  shows "s1 \<le> s2 \<and> s1 \<le> 100 \<and> s2 \<le> 100 \<and>
         (\<exists>bonus. (bonus = 0 \<or> bonus = 5 \<or> bonus = 10) \<and>
                   s1 = min 100 (base_score ratio q1 t1 o1 + bonus) \<and>
                   s2 = min 100 (base_score ratio q2 t2 o2 + bonus))"
proof -
  have b1: "base_score ratio q1 t1 o1 \<le> 100" and b2: "base_score ratio q2 t2 o2 \<le> 100"
    using assms(1) by (simp_all add: base_score_def)
  obtain b where yb: "year_bonus year_hint tmdb_year = Inr b"
    using assms(2) by (cases "year_bonus year_hint tmdb_year")
      (simp_all add: calculate_match_score_bonus)
  have bv: "b = 0 \<or> b = 5 \<or> b = 10" using yb by (rule year_bonus_values)
  have e1: "s1 = min 100 (base_score ratio q1 t1 o1 + b)"
    using assms(2) yb b1 by (auto simp: calculate_match_score_bonus)
  have e2: "s2 = min 100 (base_score ratio q2 t2 o2 + b)"
    using assms(3) yb b2 by (auto simp: calculate_match_score_bonus)
  have "s1 \<le> s2" using e1 e2 assms(4) by simp
  moreover have "s1 \<le> 100" "s2 \<le> 100" using e1 e2 by simp_all
  ultimately show ?thesis using bv e1 e2 by blast
qed

theorem calculate_match_score_monotone_witness:
  "calculate_match_score fuzz_ratio ''Heat 1995'' ''Heat'' '''' (Some 1995) (Some ''1995-12-15'')
     = Inr (930 / 13) \<and>
   calculate_match_score fuzz_ratio ''Heat'' ''Heat'' '''' (Some 1995) (Some ''1995-12-15'')
     = Inr 100 \<and>
   (930 / 13 :: real) \<le> 100"
proof -
  have h1: "\<forall>a b. fuzz_ratio a b \<le> 100" using fuzz_ratio_range by blast
  have h2: "calculate_match_score fuzz_ratio ''Heat 1995'' ''Heat'' '''' (Some 1995)
              (Some ''1995-12-15'') = Inr (930 / 13)"
    by (simp add: calculate_match_score_def fuzz_ratio_def str_defs)
  have h3: "calculate_match_score fuzz_ratio ''Heat'' ''Heat'' '''' (Some 1995)
              (Some ''1995-12-15'') = Inr 100"
    by (simp add: calculate_match_score_def fuzz_ratio_def str_defs)
  have h4: "base_score fuzz_ratio ''Heat 1995'' ''Heat'' '''' \<le> base_score fuzz_ratio ''Heat'' ''Heat'' ''''"
    by (simp add: base_score_def fuzz_ratio_def str_defs)
  show ?thesis
    using calculate_match_score_monotone [OF h1 h2 h3 h4] h2 h3 by simp
qed

text \<open>The score of the variant scorer is capped and monotone in the same way.\<close>

lemma calculate_confidence_monotone:
  assumes "ratio (lower s1) (lower t1) \<le> ratio (lower s2) (lower t2)"
  shows "calculate_confidence ratio o1 s1 t1 year_hint tmdb_year
           \<le> calculate_confidence ratio o2 s2 t2 year_hint tmdb_year \<and>
         calculate_confidence ratio o2 s2 t2 year_hint tmdb_year \<le> 100"
  using assms by (simp add: calculate_confidence_def Let_def)

text \<open>
  C1 (amended). When the ratio stays within 0..100, the year hint is not 0 and the
  release date is absent, empty or starts with an integer, the score of a candidate is
  the score of the specification. (A year hint of 0 counts as no hint, and a release
  date that does not start with an integer makes the scorer raise.)
\<close>

theorem calculate_match_score_spec:
  assumes "\<forall>a b. 0 \<le> ratio a b \<and> ratio a b \<le> 100"
    and "year_hint \<noteq> Some 0"
    and "tmdb_year = None \<or> tmdb_year = Some [] \<or> release_year tmdb_year \<noteq> None"
  shows "calculate_match_score ratio query title orig year_hint tmdb_year =
           Inr (spec_score ratio query title orig year_hint (release_year tmdb_year))"
proof -
  have b: "max (ratio (lower query) (lower title)) (ratio (lower query) (lower orig)) \<le> 100"
    using assms(1) by simp
  show ?thesis
    using assms(2,3) b
    by (auto simp: calculate_match_score_def spec_score_def spec_year_bonus_def release_year_def
          Let_def split: option.splits)
qed

theorem calculate_match_score_spec_witness:
  "calculate_match_score fuzz_ratio ''Heat 1995'' ''Heat'' '''' (Some 1995) (Some ''1995-12-15'')
     = Inr (spec_score fuzz_ratio ''Heat 1995'' ''Heat'' '''' (Some 1995) (Some 1995)) \<and>
   spec_score fuzz_ratio ''Heat 1995'' ''Heat'' '''' (Some 1995) (Some 1995) = 930 / 13"
proof -
  have h1: "\<forall>a b. 0 \<le> fuzz_ratio a b \<and> fuzz_ratio a b \<le> 100"
    using fuzz_ratio_range by blast
  have h2: "Some (1995::int) \<noteq> Some 0" by simp
  have ry: "release_year (Some ''1995-12-15'') = Some 1995"
    by (simp add: release_year_def str_defs)
  have h3: "Some ''1995-12-15'' = None \<or> Some ''1995-12-15'' = Some [] \<or>
            release_year (Some ''1995-12-15'') \<noteq> None"
    by (simp add: ry)
  have v: "spec_score fuzz_ratio ''Heat 1995'' ''Heat'' '''' (Some 1995) (Some 1995) = 930 / 13"
    by (simp add: spec_score_def spec_year_bonus_def fuzz_ratio_def str_defs)
  show ?thesis
    using calculate_match_score_spec [OF h1 h2 h3, of "''Heat 1995''" "''Heat''" "''''"] ry v
    by simp
qed

text \<open>
  The claim as it is worded fails in three places: a release date that does not start
  with an integer gives no score at all, a year hint of 0 gets no bonus although it
  equals the release year, and the variant scorer adds 20 where the wording says 10.
\<close>

theorem calculate_match_score_spec_counterexample:
  "calculate_match_score fuzz_ratio ''Heat'' ''Heat'' ''Heat'' (Some 1995) (Some ''unknown'')
     \<noteq> Inr (spec_score fuzz_ratio ''Heat'' ''Heat'' ''Heat'' (Some 1995)
              (release_year (Some ''unknown''))) \<and>
   calculate_match_score fuzz_ratio ''Alien'' ''Heat'' ''Heat'' (Some 0) (Some ''0000-01-01'')
     \<noteq> Inr (spec_score fuzz_ratio ''Alien'' ''Heat'' ''Heat'' (Some 0)
              (release_year (Some ''0000-01-01''))) \<and>
   calculate_confidence fuzz_ratio ''Alien'' ''Alien'' ''Heat'' (Some 1995) (Some ''1995-12-15'')
     \<noteq> spec_score fuzz_ratio ''Alien'' ''Heat'' ''Heat'' (Some 1995)
          (release_year (Some ''1995-12-15''))"
proof -
  have a: "calculate_match_score fuzz_ratio ''Heat'' ''Heat'' ''Heat'' (Some 1995)
             (Some ''unknown'') = Inl ValueError"
    by (simp add: calculate_match_score_def fuzz_ratio_def str_defs)
  have b: "calculate_match_score fuzz_ratio ''Alien'' ''Heat'' ''Heat'' (Some 0)
             (Some ''0000-01-01'') = Inr (200 / 9)"
    by (simp add: calculate_match_score_def fuzz_ratio_def str_defs)
  have b': "spec_score fuzz_ratio ''Alien'' ''Heat'' ''Heat'' (Some 0)
              (release_year (Some ''0000-01-01'')) = 290 / 9"
    by (simp add: spec_score_def spec_year_bonus_def release_year_def fuzz_ratio_def str_defs)
  have c: "calculate_confidence fuzz_ratio ''Alien'' ''Alien'' ''Heat'' (Some 1995)
             (Some ''1995-12-15'') = 380 / 9"
    by (simp add: calculate_confidence_def fuzz_ratio_def str_defs)
  have c': "spec_score fuzz_ratio ''Alien'' ''Heat'' ''Heat'' (Some 1995)
              (release_year (Some ''1995-12-15'')) = 290 / 9"
    by (simp add: spec_score_def spec_year_bonus_def release_year_def fuzz_ratio_def str_defs)
  show ?thesis
    unfolding a b b' c c' by simp
qed

text \<open>
  C10. With a year hint (not 0) and a non-empty release date, the scorer raises
  \<open>ValueError\<close> exactly when the text before the first \<open>-\<close> is not an integer, and
  returns a score otherwise; such a date exists for every hint. The variant scorer
  never raises: when its own conversion fails it adds no bonus.
\<close>

theorem calculate_match_score_raises:
  assumes "h \<noteq> 0" and "d \<noteq> []"
  shows "(calculate_match_score ratio q t ot (Some h) (Some d) = Inl ValueError
            \<longleftrightarrow> py_int (split_first CHR ''-'' d) = None) \<and>
         (py_int (split_first CHR ''-'' d) \<noteq> None
            \<longrightarrow> (\<exists>s. calculate_match_score ratio q t ot (Some h) (Some d) = Inr s)) \<and>
         calculate_match_score ratio q t ot (Some h) (Some ''unknown'') = Inl ValueError \<and>
         (py_int (take 4 d) = None
            \<longrightarrow> calculate_confidence ratio orig q t (Some h) (Some d)
                  = min 100 (ratio (lower q) (lower t)))"
proof -
  have u: "py_int (split_first CHR ''-'' ''unknown'') = None"
    by (simp add: str_defs)
  show ?thesis
    using assms u
    by (auto simp: calculate_match_score_def calculate_confidence_def Let_def
          split: option.splits)
qed

theorem calculate_match_score_raises_witness:
  "calculate_match_score fuzz_ratio ''Heat'' ''Heat'' ''Heat'' (Some 1995) (Some ''unknown'')
     = Inl ValueError \<and>
   calculate_confidence fuzz_ratio ''Heat'' ''Heat'' ''Heat'' (Some 1995) (Some ''unknown'')
     = 100"
proof -
  have h1: "(1995::int) \<noteq> 0" by simp
  have h2: "''unknown'' \<noteq> []" by simp
  have p: "py_int (split_first CHR ''-'' ''unknown'') = None" by (simp add: str_defs)
  have p4: "py_int (take 4 ''unknown'') = None" by (simp add: str_defs)
  have r: "fuzz_ratio (lower ''Heat'') (lower ''Heat'') = 100"
    by (simp add: fuzz_ratio_def str_defs)
  show ?thesis
    using calculate_match_score_raises [OF h1 h2, of fuzz_ratio "''Heat''" "''Heat''" "''Heat''" "''Heat''"]
      p p4 r
    by simp
qed

subsection \<open>The best candidate\<close>

lemma hd_insort_key:
  "hd (insort_key f x ys) = (if ys = [] then x else if f x \<le> f (hd ys) then x else hd ys)"
  by (cases ys) auto

lemma sort_key_nonempty: "xs \<noteq> [] \<Longrightarrow> sort_key f xs \<noteq> []"
  by (metis length_sort length_0_conv)

lemma hd_sort_key_first_least:
  "xs \<noteq> [] \<Longrightarrow>
     \<exists>i<length xs. hd (sort_key f xs) = xs ! i \<and>
        (\<forall>j<length xs. f (xs ! i) \<le> f (xs ! j)) \<and> (\<forall>j<i. f (xs ! i) < f (xs ! j))"
proof (induction xs)
  case Nil
  then show ?case by simp
next
  case (Cons x xs)
  show ?case
  proof (cases "xs = []")
    case True
    then show ?thesis by simp
  next
    case False
    with Cons.IH obtain i where i: "i < length xs" "hd (sort_key f xs) = xs ! i"
      "\<forall>j<length xs. f (xs ! i) \<le> f (xs ! j)" "\<forall>j<i. f (xs ! i) < f (xs ! j)"
      by blast
    have ne: "sort_key f xs \<noteq> []" using False by (rule sort_key_nonempty)
    have hd_eq: "hd (sort_key f (x # xs)) = (if f x \<le> f (xs ! i) then x else xs ! i)"
      using ne i(2) by (simp add: hd_insort_key)
    show ?thesis
    proof (cases "f x \<le> f (xs ! i)")
      case True
      have "\<forall>j<length (x # xs). f ((x # xs) ! 0) \<le> f ((x # xs) ! j)"
      proof (intro allI impI)
        fix j assume "j < length (x # xs)"
        then show "f ((x # xs) ! 0) \<le> f ((x # xs) ! j)"
          using True i(3) by (cases j) (auto intro: order_trans)
      qed
      then show ?thesis using hd_eq True by (intro exI [of _ 0]) simp
    next
      case False
      have a: "\<forall>j<length (x # xs). f ((x # xs) ! Suc i) \<le> f ((x # xs) ! j)"
      proof (intro allI impI)
        fix j assume "j < length (x # xs)"
        then show "f ((x # xs) ! Suc i) \<le> f ((x # xs) ! j)"
          using False i(3) by (cases j) auto
      qed
      have b: "\<forall>j<Suc i. f ((x # xs) ! Suc i) < f ((x # xs) ! j)"
      proof (intro allI impI)
        fix j assume "j < Suc i"
        then show "f ((x # xs) ! Suc i) < f ((x # xs) ! j)"
          using False i(4) by (cases j) auto
      qed
      show ?thesis using hd_eq False a b i(1) by (intro exI [of _ "Suc i"]) simp
    qed
  qed
qed

lemma score_results_snd:
  "score_results ratio q hint rs = Inr scored \<Longrightarrow> map snd scored = rs"
  by (induction rs arbitrary: scored) (auto split: sum.splits)

lemma score_results_fst:
  "score_results ratio q hint rs = Inr scored \<Longrightarrow> i < length rs \<Longrightarrow>
     calculate_match_score ratio q (get_default (c_title (rs ! i)) '''')
       (get_default (c_original_title (rs ! i)) '''') hint (c_release_date (rs ! i))
     = Inr (fst (scored ! i))"
proof (induction rs arbitrary: scored i)
  case Nil
  then show ?case by simp
next
  case (Cons r rs)
  then show ?case by (cases i) (auto split: sum.splits)
qed

lemma score_results_total:
  "\<forall>c\<in>set rs. year_bonus hint (c_release_date c) \<noteq> Inl ValueError \<Longrightarrow>
     \<exists>scored. score_results ratio q hint rs = Inr scored"
proof (induction rs)
  case Nil
  then show ?case by simp
next
  case (Cons r rs)
  then obtain scored where s: "score_results ratio q hint rs = Inr scored" by auto
  from Cons.prems have "year_bonus hint (c_release_date r) \<noteq> Inl ValueError" by simp
  then obtain b where "year_bonus hint (c_release_date r) = Inr b"
    by (cases "year_bonus hint (c_release_date r)")
       (auto simp: year_bonus_def split: option.splits if_splits)
  then show ?case using s by (simp add: calculate_match_score_bonus)
qed

lemma find_best_match_best:
  assumes "search_results search q hint \<noteq> []"
    and "score_results ratio q hint (take 10 (search_results search q hint)) = Inr scored"
  shows "\<exists>i<length scored.
           find_best_match ratio search q hint = Inr (match_of (fst (scored ! i)) (snd (scored ! i))) \<and>
           (\<forall>j<length scored. fst (scored ! j) \<le> fst (scored ! i)) \<and>
           (\<forall>j<i. fst (scored ! j) < fst (scored ! i))"
proof -
  have "map snd scored = take 10 (search_results search q hint)"
    using assms(2) by (rule score_results_snd)
  then have ne: "scored \<noteq> []" using assms(1) by auto
  from hd_sort_key_first_least [OF ne, of "\<lambda>x. - fst x"]
  obtain i where i: "i < length scored" "hd (sort_by_score scored) = scored ! i"
    "\<forall>j<length scored. fst (scored ! j) \<le> fst (scored ! i)"
    "\<forall>j<i. fst (scored ! j) < fst (scored ! i)"
    by (auto simp: sort_by_score_def)
  have sne: "sort_by_score scored \<noteq> []"
    using ne by (simp add: sort_by_score_def sort_key_nonempty)
  then obtain b r rest where s: "sort_by_score scored = (b, r) # rest"
    by (cases "sort_by_score scored") auto
  then have "scored ! i = (b, r)" using i(2) by simp
  then have "find_best_match ratio search q hint = Inr (match_of (fst (scored ! i)) (snd (scored ! i)))"
    using assms s by (simp add: find_best_match_def Let_def)
  then show ?thesis using i by blast
qed

subsection \<open>The example lookups\<close>

lemma score_alien_none:
  "calculate_match_score fuzz_ratio ''Heat'' (get_default (c_title alien) '''')
     (get_default (c_original_title alien) '''') None (c_release_date alien) = Inr (200 / 9)"
  by (simp add: calculate_match_score_def alien_def get_default_def fuzz_ratio_def str_defs)

lemma score_alien:
  "calculate_match_score fuzz_ratio ''Heat'' (get_default (c_title alien) '''')
     (get_default (c_original_title alien) '''') (Some 1995) (c_release_date alien)
   = Inr (200 / 9)"
  by (simp add: calculate_match_score_def alien_def get_default_def fuzz_ratio_def str_defs)

lemma score_heat_none:
  "calculate_match_score fuzz_ratio ''Heat'' (get_default (c_title heat) '''')
     (get_default (c_original_title heat) '''') None (c_release_date heat) = Inr 100"
  by (simp add: calculate_match_score_def heat_def get_default_def fuzz_ratio_def str_defs)

lemma score_heat:
  "calculate_match_score fuzz_ratio ''Heat'' (get_default (c_title heat) '''')
     (get_default (c_original_title heat) '''') (Some 1995) (c_release_date heat) = Inr 100"
  by (simp add: calculate_match_score_def heat_def get_default_def fuzz_ratio_def str_defs)

lemma score_heat2:
  "calculate_match_score fuzz_ratio ''Heat'' (get_default (c_title heat2) '''')
     (get_default (c_original_title heat2) '''') (Some 1995) (c_release_date heat2) = Inr 100"
  by (simp add: calculate_match_score_def heat2_def get_default_def fuzz_ratio_def str_defs)

lemma score_undated:
  "calculate_match_score fuzz_ratio ''Heat'' (get_default (c_title undated) '''')
     (get_default (c_original_title undated) '''') (Some 1995) (c_release_date undated)
   = Inl ValueError"
  by (simp add: calculate_match_score_def undated_def get_default_def fuzz_ratio_def str_defs)

lemma score_tie_lookup:
  "score_results fuzz_ratio ''Heat'' (Some 1995) [alien, heat, heat2]
     = Inr [(200 / 9, alien), (100, heat), (100, heat2)]"
  by (simp add: score_alien score_heat score_heat2)

lemma find_best_match_eleven:
  "find_best_match fuzz_ratio eleven_results ''Heat'' None = Inr (match_of (200 / 9) alien)"
proof -
  have s: "score_results fuzz_ratio ''Heat'' None (replicate 10 alien)
             = Inr (replicate 10 (200 / 9, alien))"
    by (simp add: score_alien_none numeral_eq_Suc)
  have srt: "sort_by_score (replicate 10 (200 / 9, alien)) = replicate 10 (200 / 9, alien)"
    by (simp add: sort_by_score_def numeral_eq_Suc)
  have r: "search_results eleven_results ''Heat'' None = replicate 10 alien @ [heat]"
    by (simp add: search_results_def eleven_results_def)
  show ?thesis
    by (simp add: find_best_match_def r s srt) (simp add: numeral_eq_Suc)
qed

text \<open>
  C2 (amended). When no candidate of the first ten makes the scorer raise,
  \<open>find_best_match\<close> returns a result. For an empty candidate list it is the result
  \<open>NO_RESULTS\<close>, with review needed and no identifier. Otherwise the status follows
  the best score of the first ten candidates, the largest score among them: high from
  85, medium from 70, low below; and review is needed exactly when the status is not
  high.
\<close>

theorem find_best_match_tier:
  assumes "\<forall>c\<in>set (take 10 (search_results search q hint)).
             year_bonus hint (c_release_date c) \<noteq> Inl ValueError"
  shows "\<exists>m. find_best_match ratio search q hint = Inr m \<and>
           (search_results search q hint = [] \<longrightarrow>
              match_status m = NO_RESULTS \<and> needs_review m \<and> tmdb_id m = None) \<and>
           (search_results search q hint \<noteq> [] \<longrightarrow>
              (\<exists>scored.
                 score_results ratio q hint (take 10 (search_results search q hint)) = Inr scored \<and>
                 match_status m =
                   (if Max (fst ` set scored) \<ge> 85 then HIGH_CONFIDENCE
                    else if Max (fst ` set scored) \<ge> 70 then MEDIUM_CONFIDENCE
                    else LOW_CONFIDENCE)) \<and>
              needs_review m = (match_status m \<noteq> HIGH_CONFIDENCE))"
proof (cases "search_results search q hint = []")
  case True
  then show ?thesis by (simp add: find_best_match_def no_results_def)
next
  case False
  from score_results_total [OF assms] obtain scored where
    s: "score_results ratio q hint (take 10 (search_results search q hint)) = Inr scored"
    by blast
  from find_best_match_best [OF False s] obtain i where i: "i < length scored"
    "find_best_match ratio search q hint = Inr (match_of (fst (scored ! i)) (snd (scored ! i)))"
    "\<forall>j<length scored. fst (scored ! j) \<le> fst (scored ! i)"
    by blast
  have "Max (fst ` set scored) = fst (scored ! i)"
  proof (rule Max_eqI)
    show "finite (fst ` set scored)" by simp
    show "fst (scored ! i) \<in> fst ` set scored" using i(1) by simp
    fix y assume "y \<in> fst ` set scored"
    then obtain j where "j < length scored" "y = fst (scored ! j)"
      by (auto simp: in_set_conv_nth)
    then show "y \<le> fst (scored ! i)" using i(3) by simp
  qed
  then show ?thesis
    using False s i(2)
    by (auto simp: match_of_def status_of_def HIGH_CONFIDENCE_THRESHOLD_def
          MEDIUM_CONFIDENCE_THRESHOLD_def)
qed

theorem find_best_match_tier_witness:
  "\<exists>m. find_best_match fuzz_ratio tie_lookup ''Heat'' (Some 1995) = Inr m \<and>
       match_status m = HIGH_CONFIDENCE \<and> \<not> needs_review m"
proof -
  have r: "search_results tie_lookup ''Heat'' (Some 1995) = [alien, heat, heat2]"
    by (simp add: search_results_def tie_lookup_def)
  have h: "\<forall>c\<in>set (take 10 (search_results tie_lookup ''Heat'' (Some 1995))).
             year_bonus (Some 1995) (c_release_date c) \<noteq> Inl ValueError"
    by (simp add: r year_bonus_def alien_def heat_def heat2_def str_defs)
  have mx: "Max (fst ` set [(200 / 9 :: real, alien), (100, heat), (100, heat2)]) = 100"
    by simp
  show ?thesis
    using find_best_match_tier [OF h, of fuzz_ratio] mx
    by (auto simp add: r score_tie_lookup simp del: score_results.simps)
qed

text \<open>
  The claim as it is worded fails for a candidate that cannot be scored, for which no
  tier is returned but an error, and beyond the tenth candidate: of eleven candidates
  the last has the score 100, and the status is low.
\<close>

theorem find_best_match_tier_counterexample:
  "undated_lookup ''Heat'' (Some 1995) = [undated] \<and>
   find_best_match fuzz_ratio undated_lookup ''Heat'' (Some 1995) = Inl ValueError \<and>
   find_best_match fuzz_ratio eleven_results ''Heat'' None = Inr (match_of (200 / 9) alien) \<and>
   match_status (match_of (200 / 9) alien) = LOW_CONFIDENCE \<and>
   eleven_results ''Heat'' None ! 10 = heat \<and>
   calculate_match_score fuzz_ratio ''Heat'' (get_default (c_title heat) '''')
     (get_default (c_original_title heat) '''') None (c_release_date heat) = Inr 100"
proof -
  have r: "search_results undated_lookup ''Heat'' (Some 1995) = [undated]"
    by (simp add: search_results_def undated_lookup_def)
  have u: "find_best_match fuzz_ratio undated_lookup ''Heat'' (Some 1995) = Inl ValueError"
    by (simp add: find_best_match_def r score_undated)
  have l: "match_status (match_of (200 / 9) alien) = LOW_CONFIDENCE"
    by (simp add: match_of_def status_of_def HIGH_CONFIDENCE_THRESHOLD_def
          MEDIUM_CONFIDENCE_THRESHOLD_def)
  have e: "eleven_results ''Heat'' None ! 10 = heat"
    by (simp add: eleven_results_def nth_append)
  show ?thesis
    using u l e find_best_match_eleven score_heat_none
    by (simp add: undated_lookup_def)
qed

text \<open>
  C8 (amended). Among the first ten candidates, \<open>find_best_match\<close> selects one whose
  score is maximal and, among those of maximal score, the earliest in the order of the
  lookup's results.
\<close>

theorem find_best_match_first_maximal:
  assumes "search_results search q hint = results" and "results \<noteq> []"
    and "score_results ratio q hint (take 10 results) = Inr scored"
  shows "\<exists>i<length (take 10 results).
           find_best_match ratio search q hint = Inr (match_of (fst (scored ! i)) (results ! i)) \<and>
           calculate_match_score ratio q (get_default (c_title (results ! i)) '''')
             (get_default (c_original_title (results ! i)) '''') hint
             (c_release_date (results ! i)) = Inr (fst (scored ! i)) \<and>
           (\<forall>j<length (take 10 results). fst (scored ! j) \<le> fst (scored ! i)) \<and>
           (\<forall>j<i. fst (scored ! j) < fst (scored ! i))"
proof -
  have ms: "map snd scored = take 10 results"
    using assms(3) by (rule score_results_snd)
  then have len: "length scored = length (take 10 results)"
    by (metis length_map)
  from find_best_match_best [of search q hint ratio scored] assms
  obtain i where i: "i < length scored"
    "find_best_match ratio search q hint = Inr (match_of (fst (scored ! i)) (snd (scored ! i)))"
    "\<forall>j<length scored. fst (scored ! j) \<le> fst (scored ! i)"
    "\<forall>j<i. fst (scored ! j) < fst (scored ! i)"
    by auto
  have "snd (scored ! i) = take 10 results ! i"
    using ms i(1) by (metis nth_map)
  then have sn: "snd (scored ! i) = results ! i"
    using i(1) len by simp
  have sc: "calculate_match_score ratio q (get_default (c_title (take 10 results ! i)) '''')
             (get_default (c_original_title (take 10 results ! i)) '''') hint
             (c_release_date (take 10 results ! i)) = Inr (fst (scored ! i))"
    using assms(3) i(1) len by (intro score_results_fst) simp_all
  have "take 10 results ! i = results ! i" using i(1) len by simp
  then show ?thesis using i sn sc len by auto
qed

text \<open>
  Of three candidates the second and the third both have the largest score, 100; the
  second is selected.
\<close>

theorem find_best_match_first_maximal_witness:
  "score_results fuzz_ratio ''Heat'' (Some 1995) [alien, heat, heat2]
     = Inr [(200 / 9, alien), (100, heat), (100, heat2)] \<and>
   find_best_match fuzz_ratio tie_lookup ''Heat'' (Some 1995) = Inr (match_of 100 heat)"
proof -
  let ?scored = "[(200 / 9 :: real, alien), (100, heat), (100, heat2)]"
  have r: "search_results tie_lookup ''Heat'' (Some 1995) = [alien, heat, heat2]"
    by (simp add: search_results_def tie_lookup_def)
  have ne: "[alien, heat, heat2] \<noteq> []" by simp
  have s: "score_results fuzz_ratio ''Heat'' (Some 1995) (take 10 [alien, heat, heat2])
             = Inr ?scored"
    by (simp add: score_tie_lookup del: score_results.simps)
  from find_best_match_first_maximal [OF r ne s]
  obtain i where i: "i < length (take 10 [alien, heat, heat2])"
    and f: "find_best_match fuzz_ratio tie_lookup ''Heat'' (Some 1995)
              = Inr (match_of (fst (?scored ! i)) ([alien, heat, heat2] ! i))"
    and mx: "\<forall>j<length (take 10 [alien, heat, heat2]). fst (?scored ! j) \<le> fst (?scored ! i)"
    and fst: "\<forall>j<i. fst (?scored ! j) < fst (?scored ! i)"
    by blast
  from i have cases: "i = 0 \<or> i = 1 \<or> i = 2" by auto
  have "i \<noteq> 0"
  proof
    assume "i = 0"
    from mx have "1 < length (take 10 [alien, heat, heat2])
                    \<longrightarrow> fst (?scored ! 1) \<le> fst (?scored ! i)"
      by blast
    with \<open>i = 0\<close> show False by simp
  qed
  moreover have "i \<noteq> 2"
  proof
    assume "i = 2"
    from fst have "1 < i \<longrightarrow> fst (?scored ! 1) < fst (?scored ! i)"
      by blast
    with \<open>i = 2\<close> show False by simp
  qed
  ultimately have "i = 1" using cases by blast
  with f show ?thesis by (simp add: score_tie_lookup del: score_results.simps)
qed

text \<open>
  The claim as it is worded fails beyond the tenth candidate: of eleven candidates the
  last has the largest score, and the first is selected. The selection loop of
  update_tmdb_from_suggested.py selects no candidate at all when no score is above 0.
\<close>

theorem find_best_match_first_maximal_counterexample:
  "find_best_match fuzz_ratio eleven_results ''Heat'' None = Inr (match_of (200 / 9) alien) \<and>
   eleven_results ''Heat'' None ! 10 = heat \<and>
   calculate_match_score fuzz_ratio ''Heat'' (get_default (c_title heat) '''')
     (get_default (c_original_title heat) '''') None (c_release_date heat) = Inr 100 \<and>
   best_of_top5 fuzz_ratio ''Heat'' ''Heat'' None [unrelated] = (None, 0)"
proof -
  have e: "eleven_results ''Heat'' None ! 10 = heat"
    by (simp add: eleven_results_def nth_append)
  have v: "best_of_top5 fuzz_ratio ''Heat'' ''Heat'' None [unrelated] = (None, 0)"
    by (simp add: best_of_top5_def calculate_confidence_def unrelated_def get_default_def
          fuzz_ratio_def str_defs)
  show ?thesis using find_best_match_eleven e score_heat_none v by simp
qed

subsection \<open>The year hint of a heading\<close>

lemmas norm_defs = parse_org_title_def heading_match_def match_rest_def year_of_title_def
  clean_title_def four_digits_def is_quote_def

lemma windows4_Cons:
  "windows4 (c # cs) = (if 3 \<le> length cs then take 4 (c # cs) # windows4 cs else [])"
proof (cases "3 \<le> length cs")
  case True
  then have "length (c # cs) - 3 = Suc (length cs - 3)" by simp
  then show ?thesis using True by (simp add: windows4_def map_upt_Suc del: upt_Suc)
next
  case False
  then show ?thesis by (simp add: windows4_def)
qed

lemma windows4_short: "length s < 4 \<Longrightarrow> windows4 s = []"
  by (simp add: windows4_def)

lemma quote_not_digit: "is_quote c \<Longrightarrow> \<not> is_digit c"
  by (auto simp: is_quote_def is_digit_def)

lemma year_search_first_run: "year_search s = first_four_digit_run s"
proof (induction s)
  case Nil
  then show ?case by (simp add: first_four_digit_run_def windows4_def)
next
  case (Cons c cs)
  show ?case
  proof (cases "3 \<le> length cs")
    case False
    then have "\<not> four_digits (c # cs)" "\<not> four_digits cs" "windows4 cs = []"
      by (simp_all add: four_digits_def windows4_short)
    then show ?thesis
      using Cons.IH False by (simp add: first_four_digit_run_def windows4_Cons)
  next
    case True
    show ?thesis
    proof (cases "is_quote c \<and> four_digits cs")
      case q: True
      then have nd: "\<not> list_all is_digit (take 4 (c # cs))"
        using quote_not_digit [of c] by (simp add: numeral_eq_Suc)
      from q have "4 \<le> length cs" "list_all is_digit (take 4 cs)"
        by (simp_all add: four_digits_def)
      then obtain a b rest where cs: "cs = a # rest"
        by (cases cs) auto
      with \<open>4 \<le> length cs\<close> have r3: "3 \<le> length rest" by simp
      have "first_four_digit_run cs = Some (take 4 cs)"
        using \<open>list_all is_digit (take 4 cs)\<close> r3
        unfolding cs first_four_digit_run_def windows4_Cons by simp
      moreover have "\<not> is_digit c" using q quote_not_digit by blast
      ultimately show ?thesis
        using q True by (simp add: first_four_digit_run_def windows4_Cons numeral_eq_Suc)
    next
      case nq: False
      show ?thesis
      proof (cases "four_digits (c # cs)")
        case True
        then have d: "list_all is_digit (take 4 (c # cs))"
          by (simp add: four_digits_def)
        have "year_search (c # cs) = Some (take 4 (c # cs))"
          using nq True by auto
        moreover have "first_four_digit_run (c # cs) = Some (take 4 (c # cs))"
          using d \<open>3 \<le> length cs\<close> by (auto simp: first_four_digit_run_def windows4_Cons)
        ultimately show ?thesis by simp
      next
        case False
        then have d: "\<not> list_all is_digit (take 4 (c # cs))"
          using \<open>3 \<le> length cs\<close> by (simp add: four_digits_def)
        have "year_search (c # cs) = year_search cs"
          using nq False by auto
        moreover have "first_four_digit_run (c # cs) = first_four_digit_run cs"
          using d \<open>3 \<le> length cs\<close> by (auto simp: first_four_digit_run_def windows4_Cons)
        ultimately show ?thesis using Cons.IH by simp
      qed
    qed
  qed
qed

text \<open>
  C7 (amended). The year hint of a valid heading is the value of the first run of four
  consecutive digits of its text when that value is from 1920 to 2025, and there is no
  hint when there is no such run or its value is outside that range. The example
  heading gives the title \<open>Film Title\<close> and the year 1964.
\<close>

theorem parse_org_title_year_hint:
  assumes "parse_org_title line = Some (full_title, cleaned, year)"
  shows "year =
           (case first_four_digit_run full_title of
              None \<Rightarrow> None
            | Some ds \<Rightarrow>
                if 1920 \<le> int (nat_of_digits ds) \<and> int (nat_of_digits ds) \<le> 2025
                then Some (int (nat_of_digits ds)) else None) \<and>
         parse_org_title (''* Film Title ('' @ [CHR 0xB4] @ ''1964_/Trailer)'')
           = Some (''Film Title ('' @ [CHR 0xB4] @ ''1964_/Trailer)'', ''Film Title'', Some 1964)"
proof -
  have ex: "parse_org_title (''* Film Title ('' @ [CHR 0xB4] @ ''1964_/Trailer)'')
           = Some (''Film Title ('' @ [CHR 0xB4] @ ''1964_/Trailer)'', ''Film Title'', Some 1964)"
    by (simp add: norm_defs str_defs)
  from assms have "year = year_of_title full_title"
    by (auto simp: parse_org_title_def Let_def split: option.splits)
  then show ?thesis
    using ex by (simp add: year_of_title_def year_search_first_run Let_def split: option.split)
qed

theorem parse_org_title_year_hint_witness:
  "parse_org_title ''* Heat (USA 1995)'' = Some (''Heat (USA 1995)'', ''Heat'', Some 1995) \<and>
   first_four_digit_run ''Heat (USA 1995)'' = Some ''1995''"
proof -
  have p: "parse_org_title ''* Heat (USA 1995)'' = Some (''Heat (USA 1995)'', ''Heat'', Some 1995)"
    by (simp add: norm_defs str_defs)
  have "year_search ''Heat (USA 1995)'' = Some ''1995''"
    by (simp add: four_digits_def is_quote_def is_digit_def)
  then have f: "first_four_digit_run ''Heat (USA 1995)'' = Some ''1995''"
    by (simp add: year_search_first_run)
  show ?thesis
    using parse_org_title_year_hint [OF p] p f by simp
qed

text \<open>
  The claim as it is worded fails when a run of four digits outside the range comes
  first: the heading holds the token 1964, and there is no hint.
\<close>

theorem parse_org_title_year_hint_counterexample:
  "parse_org_title ''* 1001 Nacht (1964)'' = Some (''1001 Nacht (1964)'', ''1001 Nacht'', None)"
  by (simp add: norm_defs str_defs)

subsection \<open>Duplicate properties\<close>

lemmas dedup_defs = deduplicate_properties_def dedup_step_def dedup_init_def is_property_line_def
  property_name_def remove_last_def no_marker_def

lemma dedup_step_view:
  assumes "indexed lines st" and "i < length lines"
  shows "view_of (dedup_step lines st i) = view_step (view_of st) (lines ! i) \<and>
         indexed lines (dedup_step lines st i)"
proof (cases "current_properties st (property_name (lines ! i))")
  case None
  then show ?thesis
    using assms
    by (auto simp: dedup_step_def view_step_def view_of_def indexed_def Let_def
          is_property_line_def fun_eq_iff)
next
  case (Some a)
  obtain idx c where a: "a = (idx, c)" by (cases a)
  with Some assms(1) have "lines ! idx = c" by (simp add: indexed_def)
  then show ?thesis
    using assms Some a
    by (auto simp: dedup_step_def view_step_def view_of_def indexed_def Let_def
          is_property_line_def fun_eq_iff)
qed

lemma dedup_fold_view:
  "k \<le> length lines \<Longrightarrow>
     view_of (foldl (dedup_step lines) dedup_init [0..<k])
       = foldl view_step ([], False, Map.empty) (take k lines) \<and>
     indexed lines (foldl (dedup_step lines) dedup_init [0..<k])"
proof (induction k)
  case 0
  then show ?case by (simp add: view_of_def dedup_init_def indexed_def fun_eq_iff)
next
  case (Suc k)
  then have k: "k < length lines" by simp
  with Suc have ih: "view_of (foldl (dedup_step lines) dedup_init [0..<k])
       = foldl view_step ([], False, Map.empty) (take k lines)"
     "indexed lines (foldl (dedup_step lines) dedup_init [0..<k])"
    by simp_all
  show ?case
    using dedup_step_view [OF ih(2) k] ih(1) k
    by (simp add: take_Suc_conv_app_nth)
qed

lemma deduplicate_properties_view:
  "deduplicate_properties lines = fst (foldl view_step ([], False, Map.empty) lines)"
proof -
  have "view_of (foldl (dedup_step lines) dedup_init [0..<length lines])
       = foldl view_step ([], False, Map.empty) lines"
    using dedup_fold_view [of "length lines" lines] by simp
  then show ?thesis
    by (simp add: deduplicate_properties_def view_of_def fst_def split: prod.splits)
       (metis fst_conv)
qed


lemma remove_last_append:
  "c \<in> set res \<Longrightarrow> remove_last c (R @ res) = R @ remove_last c res"
  by (simp add: remove_last_def remove1_append)

lemma set_remove_last: "x \<in> set xs \<Longrightarrow> x \<noteq> c \<Longrightarrow> x \<in> set (remove_last c xs)"
  by (simp add: remove_last_def)

lemma view_step_anchored:
  assumes "anchored (res, ip, d)"
  shows "anchored (view_step (res, ip, d) line)"
proof -
  have old: "\<And>n c. d n = Some c \<Longrightarrow> c \<in> set res \<and> property_name c = n"
    using assms by (simp add: anchored_def)
  show ?thesis
  proof (cases "d (property_name line)")
    case None
    then show ?thesis
      using old by (auto simp: view_step_def anchored_def)
  next
    case (Some c0)
    have "\<And>n c. n \<noteq> property_name line \<Longrightarrow> d n = Some c \<Longrightarrow> c \<in> set (remove_last c0 res)"
    proof -
      fix n c assume n: "n \<noteq> property_name line" and c: "d n = Some c"
      from old [OF c] have "c \<in> set res" "property_name c = n" by simp_all
      moreover from old [OF Some] have "property_name c0 = property_name line" by simp
      ultimately have "c \<noteq> c0" using n by auto
      with \<open>c \<in> set res\<close> show "c \<in> set (remove_last c0 res)" by (rule set_remove_last)
    qed
    then show ?thesis
      using old Some by (auto simp: view_step_def anchored_def)
  qed
qed

lemma view_step_frame:
  assumes "anchored (res, ip, d)"
  shows "view_step (R @ res, ip, d) line =
           (case view_step (res, ip, d) line of (res', ip', d') \<Rightarrow> (R @ res', ip', d'))"
proof -
  have "\<And>c. d (property_name line) = Some c \<Longrightarrow> remove_last c (R @ res) = R @ remove_last c res"
    using assms by (intro remove_last_append) (simp add: anchored_def)
  then show ?thesis
    by (auto simp: view_step_def split: option.splits)
qed

lemma view_fold_frame:
  "anchored (res, ip, d) \<Longrightarrow>
     foldl view_step (R @ res, ip, d) ls =
       (case foldl view_step (res, ip, d) ls of (res', ip', d') \<Rightarrow> (R @ res', ip', d'))"
proof (induction ls arbitrary: res ip d)
  case Nil
  then show ?case by simp
next
  case (Cons l ls)
  obtain res1 ip1 d1 where s1: "view_step (res, ip, d) l = (res1, ip1, d1)"
    by (cases "view_step (res, ip, d) l") auto
  have a1: "anchored (res1, ip1, d1)"
    using view_step_anchored [OF Cons.prems, of l] s1 by simp
  have "view_step (R @ res, ip, d) l = (R @ res1, ip1, d1)"
    using view_step_frame [OF Cons.prems, of R l] s1 by simp
  then show ?case
    using Cons.IH [OF a1] s1 by simp
qed

lemma keep_last_snoc:
  "keep_last_occurrences (body @ [l]) =
     (if is_property_line l
      then filter (\<lambda>x. \<not> (is_property_line x \<and> property_name x = property_name l))
             (keep_last_occurrences body) @ [l]
      else keep_last_occurrences body @ [l])"
  by (induction body) (auto simp: list_ex_iff)

lemma keep_last_by_name:
  "filter (\<lambda>l. is_property_line l \<and> property_name l = n) (keep_last_occurrences body)
     = (case last_occurrence body n of None \<Rightarrow> [] | Some c \<Rightarrow> [c])"
proof (induction body)
  case Nil
  then show ?case by (simp add: last_occurrence_def)
next
  case (Cons x body)
  let ?Q = "\<lambda>l. is_property_line l \<and> property_name l = n"
  show ?case
  proof (cases "?Q x")
    case False
    then have "last_occurrence (x # body) n = last_occurrence body n"
      by (simp add: last_occurrence_def)
    then show ?thesis using False Cons.IH by auto
  next
    case True
    show ?thesis
    proof (cases "filter ?Q body")
      case Nil
      then have no: "\<not> list_ex (\<lambda>l'. is_property_line l' \<and> property_name l' = property_name x) body"
        using True by (auto simp: list_ex_iff filter_empty_conv)
      have "last_occurrence body n = None" using Nil by (simp add: last_occurrence_def)
      moreover have "last_occurrence (x # body) n = Some x"
        using Nil True by (simp add: last_occurrence_def)
      ultimately show ?thesis using Cons.IH True no by simp
    next
      case (Cons y ys)
      then have "y \<in> set (filter ?Q body)" by simp
      then have "y \<in> set body \<and> ?Q y" by simp
      then have ex: "list_ex (\<lambda>l'. is_property_line l' \<and> property_name l' = property_name x) body"
        using True by (auto simp: list_ex_iff)
      have "last_occurrence (x # body) n = last_occurrence body n"
        using Cons True by (simp add: last_occurrence_def)
      then show ?thesis using Cons.IH True ex by simp
    qed
  qed
qed

lemma remove1_single:
  "filter Q zs = [c] \<Longrightarrow> remove1 c zs = filter (\<lambda>x. \<not> Q x) zs"
proof (induction zs)
  case Nil
  then show ?case by simp
next
  case (Cons z zs)
  show ?case
  proof (cases "Q z")
    case True
    with Cons.prems have "z = c" "filter Q zs = []" by simp_all
    then have "filter (\<lambda>x. \<not> Q x) zs = zs" by (simp add: filter_empty_conv filter_id_conv)
    then show ?thesis using True \<open>z = c\<close> by simp
  next
    case False
    with Cons.prems have f: "filter Q zs = [c]" by simp
    then have "c \<in> set (filter Q zs)" by simp
    then have "Q c" by simp
    with False have "z \<noteq> c" by auto
    then show ?thesis using False Cons.IH [OF f] by simp
  qed
qed

lemma remove_last_single:
  "filter Q ys = [c] \<Longrightarrow> remove_last c ys = filter (\<lambda>x. \<not> Q x) ys"
proof -
  assume "filter Q ys = [c]"
  then have "filter Q (rev ys) = [c]" by (simp add: rev_filter [symmetric])
  then have "remove1 c (rev ys) = filter (\<lambda>x. \<not> Q x) (rev ys)" by (rule remove1_single)
  then show ?thesis by (simp add: remove_last_def rev_filter)
qed

lemma last_occurrence_snoc:
  "last_occurrence (body @ [l]) n =
     (if is_property_line l \<and> property_name l = n then Some l else last_occurrence body n)"
  by (auto simp: last_occurrence_def Let_def)

lemma view_fold_body:
  "\<forall>l\<in>set body. no_marker l \<Longrightarrow>
     foldl view_step ([], True, Map.empty) body
       = (keep_last_occurrences body, True, last_occurrence body)"
proof (induction body rule: rev_induct)
  case Nil
  then show ?case by (simp add: last_occurrence_def fun_eq_iff)
next
  case (snoc l body)
  then have ih: "foldl view_step ([], True, Map.empty) body
       = (keep_last_occurrences body, True, last_occurrence body)"
    and nm: "strip l \<noteq> '':PROPERTIES:''" "strip l \<noteq> '':END:''"
    by (simp_all add: no_marker_def)
  have step: "foldl view_step ([], True, Map.empty) (body @ [l])
       = view_step (keep_last_occurrences body, True, last_occurrence body) l"
    using ih by simp
  have dict: "(last_occurrence body)(property_name l \<mapsto> l) = last_occurrence (body @ [l])"
    if "is_property_line l"
    using that by (auto simp: last_occurrence_snoc fun_eq_iff)
  show ?case
  proof (cases "is_property_line l")
    case False
    then have "last_occurrence (body @ [l]) = last_occurrence body"
      by (simp add: last_occurrence_snoc fun_eq_iff)
    then show ?thesis
      unfolding step using False nm by (simp add: view_step_def keep_last_snoc)
  next
    case True
    show ?thesis
    proof (cases "last_occurrence body (property_name l)")
      case None
      then have "filter (\<lambda>x. is_property_line x \<and> property_name x = property_name l)
                   (keep_last_occurrences body) = []"
        by (simp add: keep_last_by_name)
      then have "filter (\<lambda>x. \<not> (is_property_line x \<and> property_name x = property_name l))
                   (keep_last_occurrences body) = keep_last_occurrences body"
        by (simp add: filter_empty_conv filter_id_conv)
      then show ?thesis
        unfolding step using nm True None dict by (simp add: view_step_def keep_last_snoc)
    next
      case (Some c)
      then have "filter (\<lambda>x. is_property_line x \<and> property_name x = property_name l)
                   (keep_last_occurrences body) = [c]"
        by (simp add: keep_last_by_name)
      then have "remove_last c (keep_last_occurrences body)
                 = filter (\<lambda>x. \<not> (is_property_line x \<and> property_name x = property_name l))
                     (keep_last_occurrences body)"
        by (rule remove_last_single)
      then show ?thesis
        unfolding step using nm True Some dict by (simp add: view_step_def keep_last_snoc)
    qed
  qed
qed

text \<open>
  A block between a start marker and an end marker is rewritten on its own: whatever
  comes before and after it, its lines are replaced by the last occurrences.
\<close>

lemma deduplicate_properties_block:
  assumes "strip p = '':PROPERTIES:''" and "strip e = '':END:''"
    and "\<forall>l\<in>set body. no_marker l"
  shows "deduplicate_properties (pre @ [p] @ body @ [e] @ post)
           = deduplicate_properties pre @ [p] @ keep_last_occurrences body @ [e]
             @ deduplicate_properties post"
proof -
  let ?init = "([], False, Map.empty) :: dedup_view"
  obtain r ip d where pre: "foldl view_step ?init pre = (r, ip, d)"
    by (cases "foldl view_step ?init pre") auto
  then have r: "deduplicate_properties pre = r"
    by (simp add: deduplicate_properties_view)
  have sp: "view_step (r, ip, d) p = ((r @ [p]) @ [], True, Map.empty)"
    using assms(1) by (simp add: view_step_def)
  have a0: "anchored ([], True, Map.empty)" by (simp add: anchored_def)
  have sb: "foldl view_step ((r @ [p]) @ [], True, Map.empty) body
              = (r @ [p] @ keep_last_occurrences body, True, last_occurrence body)"
    using view_fold_frame [OF a0, of "r @ [p]" body] view_fold_body [OF assms(3)] by simp
  have se: "view_step (r @ [p] @ keep_last_occurrences body, True, last_occurrence body) e
              = ((r @ [p] @ keep_last_occurrences body @ [e]) @ [], False, Map.empty)"
    using assms(2) by (simp add: view_step_def str_defs)
  have a1: "anchored ([], False, Map.empty)" by (simp add: anchored_def)
  obtain r' ip' d' where post: "foldl view_step ?init post = (r', ip', d')"
    by (cases "foldl view_step ?init post") auto
  then have r': "deduplicate_properties post = r'"
    by (simp add: deduplicate_properties_view)
  have spost: "foldl view_step ((r @ [p] @ keep_last_occurrences body @ [e]) @ [], False, Map.empty) post
                 = ((r @ [p] @ keep_last_occurrences body @ [e]) @ r', ip', d')"
    using view_fold_frame [OF a1, of "r @ [p] @ keep_last_occurrences body @ [e]" post] post
    by simp
  have "foldl view_step ?init (pre @ [p] @ body @ [e] @ post)
          = ((r @ [p] @ keep_last_occurrences body @ [e]) @ r', ip', d')"
    using pre sp sb se spost by simp
  then show ?thesis
    using r r' by (simp add: deduplicate_properties_view)
qed


lemma keep_last_distinct:
  "distinct (map property_name (filter is_property_line body)) \<Longrightarrow>
     keep_last_occurrences body = body"
proof (induction body)
  case Nil
  then show ?case by simp
next
  case (Cons x body)
  then have ih: "keep_last_occurrences body = body" by (simp split: if_splits)
  have "\<not> list_ex (\<lambda>l'. is_property_line l' \<and> property_name l' = property_name x) body"
    if "is_property_line x"
  proof
    assume "list_ex (\<lambda>l'. is_property_line l' \<and> property_name l' = property_name x) body"
    then obtain y where "y \<in> set body" "is_property_line y" "property_name y = property_name x"
      by (auto simp: list_ex_iff)
    then have "y \<in> set (filter is_property_line body)" by simp
    then have "property_name y \<in> property_name ` set (filter is_property_line body)"
      by (rule imageI)
    then have "property_name x \<in> set (map property_name (filter is_property_line body))"
      unfolding \<open>property_name y = property_name x\<close> set_map .
    with Cons.prems that show False by simp
  qed
  then show ?case using ih by auto
qed

lemma keep_last_twice:
  assumes "is_property_line l1" and "is_property_line l2"
    and "property_name l1 = property_name l2"
    and "distinct (map property_name (filter is_property_line (A @ B @ [l2] @ C)))"
  shows "keep_last_occurrences (A @ [l1] @ B @ [l2] @ C) = A @ B @ [l2] @ C"
  using assms(4)
proof (induction A)
  case Nil
  then have "keep_last_occurrences (B @ [l2] @ C) = B @ [l2] @ C"
    using keep_last_distinct [of "B @ [l2] @ C"] by simp
  moreover have "list_ex (\<lambda>l'. is_property_line l' \<and> property_name l' = property_name l1)
                   (B @ [l2] @ C)"
    using assms(2,3) by (simp add: list_ex_iff)
  ultimately show ?case using assms(1) by simp
next
  case (Cons x A)
  then have ih: "keep_last_occurrences (A @ [l1] @ B @ [l2] @ C) = A @ B @ [l2] @ C"
    by (simp split: if_splits)
  have "\<not> list_ex (\<lambda>l'. is_property_line l' \<and> property_name l' = property_name x)
            (A @ [l1] @ B @ [l2] @ C)"
    if x: "is_property_line x"
  proof
    assume "list_ex (\<lambda>l'. is_property_line l' \<and> property_name l' = property_name x)
              (A @ [l1] @ B @ [l2] @ C)"
    then obtain y where y: "y \<in> set (A @ [l1] @ B @ [l2] @ C)" "is_property_line y"
      "property_name y = property_name x"
      by (auto simp: list_ex_iff)
    have "\<exists>z\<in>set (A @ B @ [l2] @ C). is_property_line z \<and> property_name z = property_name x"
    proof (cases "y = l1")
      case True
      then show ?thesis using y assms(2,3) by auto
    next
      case False
      then show ?thesis using y by auto
    qed
    then obtain z where z: "z \<in> set (A @ B @ [l2] @ C)" "is_property_line z"
      "property_name z = property_name x"
      by blast
    then have "z \<in> set (filter is_property_line (A @ B @ [l2] @ C))" by auto
    then have "property_name z \<in> property_name ` set (filter is_property_line (A @ B @ [l2] @ C))"
      by (rule imageI)
    then have "property_name x \<in> set (map property_name (filter is_property_line (A @ B @ [l2] @ C)))"
      unfolding z(3) set_map .
    with Cons.prems x show False by simp
  qed
  then show ?case using ih by auto
qed

text \<open>
  C3 (amended). In a block in which two property lines carry the same name, and no
  other name occurs twice, the rewritten block is the block without the earlier of the
  two lines: the later line stays at its place and every other line is unchanged. A
  property line is one that, stripped, starts with a colon, does not end with one and
  has a second colon.
\<close>

theorem deduplicate_properties_twice:
  assumes "strip p = '':PROPERTIES:''" and "strip e = '':END:''"
    and "\<forall>l\<in>set (A @ [l1] @ B @ [l2] @ C). no_marker l"
    and "is_property_line l1" and "is_property_line l2"
    and "property_name l1 = property_name l2"
    and "distinct (map property_name (filter is_property_line (A @ B @ [l2] @ C)))"
  shows "deduplicate_properties (pre @ [p] @ A @ [l1] @ B @ [l2] @ C @ [e] @ post)
           = deduplicate_properties pre @ [p] @ A @ B @ [l2] @ C @ [e]
             @ deduplicate_properties post"
proof -
  have "deduplicate_properties (pre @ [p] @ (A @ [l1] @ B @ [l2] @ C) @ [e] @ post)
          = deduplicate_properties pre @ [p] @ keep_last_occurrences (A @ [l1] @ B @ [l2] @ C)
            @ [e] @ deduplicate_properties post"
    using assms(1,2,3) by (rule deduplicate_properties_block)
  then show ?thesis
    using keep_last_twice [OF assms(4,5,6,7)] by simp
qed

theorem deduplicate_properties_twice_witness:
  "deduplicate_properties
     [''* Heat\<newline>'', '':PROPERTIES:\<newline>'', '':YEAR: 1999\<newline>'', '':GENRE: Crime\<newline>'',
      '':YEAR: 2001\<newline>'', '':END:\<newline>'']
   = [''* Heat\<newline>'', '':PROPERTIES:\<newline>'', '':GENRE: Crime\<newline>'', '':YEAR: 2001\<newline>'',
      '':END:\<newline>'']"
proof -
  have h1: "strip '':PROPERTIES:\<newline>'' = '':PROPERTIES:''" by (simp add: str_defs)
  have h2: "strip '':END:\<newline>'' = '':END:''" by (simp add: str_defs)
  have h3: "\<forall>l\<in>set ([] @ ['':YEAR: 1999\<newline>''] @ ['':GENRE: Crime\<newline>''] @ ['':YEAR: 2001\<newline>''] @ []).
              no_marker l"
    by (simp add: no_marker_def str_defs)
  have h4: "is_property_line '':YEAR: 1999\<newline>''" by (simp add: is_property_line_def str_defs)
  have h5: "is_property_line '':YEAR: 2001\<newline>''" by (simp add: is_property_line_def str_defs)
  have h6: "property_name '':YEAR: 1999\<newline>'' = property_name '':YEAR: 2001\<newline>''"
    by (simp add: property_name_def str_defs)
  have h7: "distinct (map property_name (filter is_property_line
              ([] @ ['':GENRE: Crime\<newline>''] @ ['':YEAR: 2001\<newline>''] @ [])))"
    by (simp add: is_property_line_def property_name_def str_defs)
  have pre: "deduplicate_properties [''* Heat\<newline>''] = [''* Heat\<newline>'']"
    by (simp add: dedup_defs Let_def str_defs)
  have post: "deduplicate_properties [] = []"
    by (simp add: dedup_defs)
  show ?thesis
    using deduplicate_properties_twice [OF h1 h2 h3 h4 h5 h6 h7, of "[''* Heat\<newline>'']" "[]"]
      pre post
    by simp
qed

text \<open>
  The claim as it is worded fails for a key whose later line has an empty value: the
  line ends with a colon, is not taken for a property line, and both lines stay.
\<close>

theorem deduplicate_properties_twice_counterexample:
  "deduplicate_properties
     ['':PROPERTIES:\<newline>'', '':YEAR: 1999\<newline>'', '':YEAR:\<newline>'', '':END:\<newline>'']
   = ['':PROPERTIES:\<newline>'', '':YEAR: 1999\<newline>'', '':YEAR:\<newline>'', '':END:\<newline>'']"
  by (simp add: dedup_defs Let_def str_defs)


subsection \<open>Records that have an identifier, and suggested searches\<close>






















































subsection \<open>Reading back the blocks that the scripts write\<close>



































end
